theory Spec2Isabelle
  imports Main
begin

section \<open>Python values used by \<open>cli.py\<close>\<close>

text \<open>
  An exception is its class name, its \<open>str()\<close> and its \<open>__context__\<close>: the exception that
  was being handled when it was raised (Python sets it on every \<open>raise\<close> inside an
  \<open>except\<close> block).
\<close>

datatype py_exception =
  PyExc (exc_type: string) (exc_str: string) (exc_context: "py_exception option")

subsection \<open>\<open>int / int\<close> and \<open>int(float)\<close>\<close>

text \<open>
  \<open>orig_height * width / orig_width\<close> multiplies two unbounded integers exactly and then
  applies Python's true division, whose result is a \<open>float\<close>: the exact quotient rounded
  to the nearest IEEE-754 binary64 number (53 significant bits, least exponent \<open>-1022\<close>),
  ties to the even significand; \<open>ZeroDivisionError\<close> for a zero divisor, \<open>OverflowError\<close>
  when the rounded quotient is beyond the largest finite double. A double is kept as its
  integer significand and binary exponent. \<open>int(f)\<close> then drops the fractional part
  (truncation toward zero).
\<close>

datatype py_float = PyFloat (significand: int) (exponent: int)
  \<comment> \<open>the number \<open>significand * 2 ^ exponent\<close>\<close>

function bit_length :: "int \<Rightarrow> int" where
  "bit_length n = (if n \<le> 0 then 0 else 1 + bit_length (n div 2))"
  by pat_completeness auto
termination
  by (relation "measure nat") auto

declare bit_length.simps [simp del]

definition round_half_even :: "int \<Rightarrow> int \<Rightarrow> int" where
  \<comment> \<open>the integer nearest to \<open>n / d\<close> for \<open>0 \<le> n\<close>, \<open>0 < d\<close>\<close>
  "round_half_even n d =
     (let q = n div d; r = n mod d
      in if 2 * r < d then q
         else if d < 2 * r then q + 1
         else if even q then q else q + 1)"

definition binary_exponent :: "int \<Rightarrow> int \<Rightarrow> int" where
  \<comment> \<open>for positive \<open>a\<close>, \<open>b\<close>: the \<open>e\<close> with \<open>2^e \<le> a / b < 2^(e + 1)\<close>\<close>
  "binary_exponent a b =
     (let e0 = bit_length a - bit_length b
      in if (if 0 \<le> e0 then b * 2 ^ nat e0 \<le> a else b \<le> a * 2 ^ nat (- e0))
         then e0 else e0 - 1)"

definition py_truediv :: "int \<Rightarrow> int \<Rightarrow> py_exception + py_float" where
  "py_truediv a b =
     (if b = 0 then Inl (PyExc ''ZeroDivisionError'' ''division by zero'' None)
      else if a = 0 then Inr (PyFloat 0 0)
      else
        let n = \<bar>a\<bar>; d = \<bar>b\<bar>;
            x = max (binary_exponent n d) (- 1022) - 52;
            m = (if 0 \<le> x then round_half_even n (d * 2 ^ nat x)
                 else round_half_even (n * 2 ^ nat (- x)) d)
        in if 0 \<le> x \<and> 2 ^ 1024 \<le> m * 2 ^ nat x
           then Inl (PyExc ''OverflowError''
                       ''integer division result too large for a float'' None)
           else Inr (PyFloat (if (a < 0) = (b < 0) then m else - m) x))"

definition py_int :: "py_float \<Rightarrow> int" where
  "py_int f =
     (let m = significand f; x = exponent f
      in if 0 \<le> x then m * 2 ^ nat x
         else if 0 \<le> m then m div 2 ^ nat (- x)
         else - ((- m) div 2 ^ nat (- x)))"

subsection \<open>\<open>os.path.splitext\<close>\<close>

text \<open>
  The standard library's \<open>splitext\<close> (POSIX flavour: separator \<open>/\<close>, no alternative
  separator) finds the last separator and the last dot with \<open>rfind\<close>; when the dot lies
  after the separator it walks over the leading dots of the last component and splits at
  the last dot only if some other character comes before it; otherwise the extension is
  empty.
\<close>

primrec rfind :: "char \<Rightarrow> string \<Rightarrow> int" where
  "rfind c [] = - 1"
| "rfind c (x # xs) =
     (let r = rfind c xs
      in if 0 \<le> r then r + 1 else if x = c then 0 else - 1)"

function skip_leading_dots :: "string \<Rightarrow> int \<Rightarrow> int \<Rightarrow> string \<times> string" where
  "skip_leading_dots p dotIndex filenameIndex =
     (if filenameIndex < dotIndex
      then if take 1 (drop (nat filenameIndex) p) \<noteq> ''.''
           then (take (nat dotIndex) p, drop (nat dotIndex) p)
           else skip_leading_dots p dotIndex (filenameIndex + 1)
      else (p, []))"
  by pat_completeness auto
termination
  by (relation "measure (\<lambda>(p, dotIndex, filenameIndex). nat (dotIndex - filenameIndex))") auto

declare skip_leading_dots.simps [simp del]

definition splitext :: "string \<Rightarrow> string \<times> string" where
  "splitext p =
     (let sepIndex = rfind CHR ''/'' p;
          dotIndex = rfind CHR ''.'' p
      in if sepIndex < dotIndex then skip_leading_dots p dotIndex (sepIndex + 1)
         else (p, []))"

section \<open>The imaging library\<close>

text \<open>
  An image is what the program reads of it: its \<open>size\<close> and its pixels. The library
  opens a file lazily: \<open>Image.open\<close> reads the header, which gives the size, and the pixel
  data is decoded when it is first needed, which for this program is inside the
  \<open>resize\<close> of line 41. \<open>im_load_error\<close> is the exception that this decoding raises (a
  truncated or corrupt body), \<open>None\<close> when the data decodes and for every image made in
  memory.
\<close>

record 'p image =
  im_size :: "int \<times> int"
  im_pixel :: "int \<Rightarrow> int \<Rightarrow> 'p"
  im_load_error :: "py_exception option"


text \<open>
  Modelled from the spec: \<open>Image.resize(size, Image.NEAREST)\<close> is the imaging library's
  and is not part of the repository. The spec calls it nearest-neighbour sampling, which
  "selects the value of the closest source sample rather than interpolating": the result
  has the requested size, and its pixel \<open>(x, y)\<close> is the source pixel under the centre
  \<open>((x + 1/2) * W / w, (y + 1/2) * H / h)\<close> of that output pixel, computed exactly.
\<close>

definition nearest_resize :: "'p image \<Rightarrow> int \<times> int \<Rightarrow> 'p image" where
  "nearest_resize img new_size =
     (let (w, h) = new_size; (W, H) = im_size img
      in \<lparr>im_size = (w, h),
          im_pixel = (\<lambda>x y. im_pixel img (((2 * x + 1) * W) div (2 * w))
                                        (((2 * y + 1) * H) div (2 * h))),
          im_load_error = None\<rparr>)"

text \<open>
  What the program does not determine is a parameter: which paths open as which images
  and with which exception they fail, what saving does to the file system and when it
  fails, what \<open>resize\<close> does with a side below one pixel, and what the argument parser
  makes of a command line. \<open>'w\<close> is the state of the file system. \<open>resize\<close> first loads
  the image, so a pending decoding error is raised there, before the size is looked at.
\<close>

record cli_args =
  args_input_path :: string
  args_output :: "string option"
  args_width :: "int option"
  args_height :: "int option"
  args_pixels_per_pixel :: int

datatype parse_result = Parsed cli_args | SystemExit int

record ('p, 'w) library =
  image_open :: "'w \<Rightarrow> string \<Rightarrow> py_exception + 'p image"
  resize_degenerate :: "'p image \<Rightarrow> int \<times> int \<Rightarrow> py_exception + 'p image"
  image_save :: "'w \<Rightarrow> 'p image \<Rightarrow> string \<Rightarrow> py_exception option \<times> 'w"
  parse_args :: "string list \<Rightarrow> parse_result"

definition image_resize ::
  "('p, 'w) library \<Rightarrow> 'p image \<Rightarrow> int \<times> int \<Rightarrow> py_exception + 'p image" where
  "image_resize lib img new_size =
     (case im_load_error img of
        Some e \<Rightarrow> Inl e
      | None \<Rightarrow>
          if 1 \<le> fst new_size \<and> 1 \<le> snd new_size then Inr (nearest_resize img new_size)
          else resize_degenerate lib img new_size)"

section \<open>\<open>pixelate_image\<close>\<close>

subsection \<open>Target dimensions (lines 28 to 38)\<close>

definition resolve_dimensions ::
  "int \<times> int \<Rightarrow> int option \<Rightarrow> int option \<Rightarrow> py_exception + (int \<times> int)" where
  "resolve_dimensions orig width height =
     (let (orig_width, orig_height) = orig
      in case (width, height) of
           (None, None) \<Rightarrow>
             (case py_truediv (orig_height * 32) orig_width of
                Inl e \<Rightarrow> Inl e
              | Inr v \<Rightarrow> Inr (32, py_int v))
         | (None, Some h) \<Rightarrow>
             (case py_truediv (orig_width * h) orig_height of
                Inl e \<Rightarrow> Inl e
              | Inr v \<Rightarrow> Inr (py_int v, h))
         | (Some w, None) \<Rightarrow>
             (case py_truediv (orig_height * w) orig_width of
                Inl e \<Rightarrow> Inl e
              | Inr v \<Rightarrow> Inr (w, py_int v))
         | (Some w, Some h) \<Rightarrow> Inr (w, h))"

subsection \<open>The two resamplings (lines 26 to 46)\<close>

record 'p rendering =
  grid_size :: "int \<times> int"
  small_img :: "'p image"
  pixelated_img :: "'p image"

definition render ::
  "('p, 'w) library \<Rightarrow> 'p image \<Rightarrow> int option \<Rightarrow> int option \<Rightarrow> int
     \<Rightarrow> py_exception + 'p rendering" where
  "render lib img width height pixels_per_pixel =
     (case resolve_dimensions (im_size img) width height of
        Inl e \<Rightarrow> Inl e
      | Inr (width', height') \<Rightarrow>
          (case image_resize lib img (width', height') of
             Inl e \<Rightarrow> Inl e
           | Inr small \<Rightarrow>
               (let final_width = width' * pixels_per_pixel;
                    final_height = height' * pixels_per_pixel
                in case image_resize lib small (final_width, final_height) of
                     Inl e \<Rightarrow> Inl e
                   | Inr pixelated \<Rightarrow>
                       Inr \<lparr>grid_size = (width', height'), small_img = small,
                            pixelated_img = pixelated\<rparr>)))"

subsection \<open>The output path (lines 49 to 51)\<close>

definition default_output_path :: "string \<Rightarrow> string" where
  "default_output_path input_path =
     (let (base_name, extension) = splitext input_path
      in base_name @ ''_pixelated'' @ extension)"

definition resolve_output_path :: "string \<Rightarrow> string option \<Rightarrow> string" where
  "resolve_output_path input_path output_path =
     (case output_path of None \<Rightarrow> default_output_path input_path | Some p \<Rightarrow> p)"

subsection \<open>The whole function (lines 5 to 56)\<close>

definition load_error :: "string \<Rightarrow> py_exception \<Rightarrow> py_exception" where
  \<comment> \<open>line 23, raised while \<open>e\<close> is being handled\<close>
  "load_error input_path e =
     PyExc ''ValueError'' (''Could not open image '' @ input_path @ '': '' @ exc_str e) (Some e)"

definition pixelate_image ::
  "('p, 'w) library \<Rightarrow> 'w \<Rightarrow> string \<Rightarrow> string option \<Rightarrow> int option \<Rightarrow> int option \<Rightarrow> int
     \<Rightarrow> (py_exception + string) \<times> 'w" where
  "pixelate_image lib world input_path output_path width height pixels_per_pixel =
     (case image_open lib world input_path of
        Inl e \<Rightarrow> (Inl (load_error input_path e), world)
      | Inr img \<Rightarrow>
          (case render lib img width height pixels_per_pixel of
             Inl e \<Rightarrow> (Inl e, world)
           | Inr r \<Rightarrow>
               (let output_path' = resolve_output_path input_path output_path
                in case image_save lib world (pixelated_img r) output_path' of
                     (Some e, world') \<Rightarrow> (Inl e, world')
                   | (None, world') \<Rightarrow> (Inr output_path', world'))))"

section \<open>\<open>main\<close> (lines 58 to 86)\<close>



section \<open>The specification's reading of the output path\<close>

text \<open>
  The specification words the split as: the extension is the substring starting at the
  last \<open>.\<close> of the final path segment, including the dot, and empty if that segment
  contains no \<open>.\<close>; the base is what precedes it. The last dot of the path lies in the
  final segment exactly when it comes after the last separator.
\<close>

definition spec_splitext :: "string \<Rightarrow> string \<times> string" where
  "spec_splitext p =
     (let sepIndex = rfind CHR ''/'' p;
          dotIndex = rfind CHR ''.'' p
      in if sepIndex < dotIndex then (take (nat dotIndex) p, drop (nat dotIndex) p)
         else (p, []))"

definition spec_default_output_path :: "string \<Rightarrow> string" where
  "spec_default_output_path input_path =
     (let (base_name, extension) = spec_splitext input_path
      in base_name @ ''_pixelated'' @ extension)"

section \<open>An example library\<close>

text \<open>
  A small file system and library on which the program can be run: files are stored
  images, a missing file does not open, only \<open>.png\<close> paths can be saved, a resize to
  less than one pixel is refused, and the parser accepts a command line that consists of
  the input path alone (with none, a required argument is missing and it leaves with
  status 2). There are three files: a solid red \<open>200 x 100\<close> photo, a red strip of
  \<open>100 x 1\<close> pixels, and a file of \<open>200 x 100\<close> pixels whose header is intact and whose
  body is cut off.
\<close>

type_synonym rgb = "nat \<times> nat \<times> nat"

type_synonym example_files = "string \<Rightarrow> rgb image option"

definition red_image :: "rgb image" where
  "red_image =
     \<lparr>im_size = (200, 100), im_pixel = (\<lambda>x y. (255, 0, 0)), im_load_error = None\<rparr>"

definition strip_image :: "rgb image" where
  "strip_image =
     \<lparr>im_size = (100, 1), im_pixel = (\<lambda>x y. (255, 0, 0)), im_load_error = None\<rparr>"

definition truncated_error :: py_exception where
  "truncated_error = PyExc ''OSError'' ''image file is truncated'' None"

definition truncated_image :: "rgb image" where
  "truncated_image =
     \<lparr>im_size = (200, 100), im_pixel = (\<lambda>x y. (0, 0, 0)),
      im_load_error = Some truncated_error\<rparr>"

definition example_files :: example_files where
  "example_files =
     [''photo.png'' \<mapsto> red_image, ''strip.png'' \<mapsto> strip_image,
      ''truncated.png'' \<mapsto> truncated_image]"

definition example_open :: "example_files \<Rightarrow> string \<Rightarrow> py_exception + rgb image" where
  "example_open files p =
     (case files p of
        None \<Rightarrow> Inl (PyExc ''FileNotFoundError''
                      (''[Errno 2] No such file or directory: '' @ [CHR 0x27] @ p @ [CHR 0x27])
                      None)
      | Some img \<Rightarrow> Inr img)"

definition example_save ::
  "example_files \<Rightarrow> rgb image \<Rightarrow> string \<Rightarrow> py_exception option \<times> example_files" where
  "example_save files img p =
     (if snd (splitext p) = ''.png'' then (None, files(p \<mapsto> img))
      else (Some (PyExc ''ValueError'' (''unknown file extension: '' @ snd (splitext p)) None),
            files))"

definition example_parse_args :: "string list \<Rightarrow> parse_result" where
  "example_parse_args argv =
     (case argv of
        [p] \<Rightarrow> Parsed \<lparr>args_input_path = p, args_output = None, args_width = None,
                       args_height = None, args_pixels_per_pixel = 1\<rparr>
      | _ \<Rightarrow> SystemExit 2)"

definition example_library :: "(rgb, example_files) library" where
  "example_library =
     \<lparr>image_open = example_open,
      resize_degenerate =
        (\<lambda>img new_size. Inl (PyExc ''ValueError'' ''height and width must be > 0'' None)),
      image_save = example_save,
      parse_args = example_parse_args\<rparr>"

section \<open>Properties\<close>

subsection \<open>Arithmetic of \<open>int(a / b)\<close>\<close>

text \<open>
  The recursion of \<open>bit_length\<close> follows the binary digits of a numeral.
\<close>

lemma bit_length_0: "bit_length 0 = 0"
  by (simp add: bit_length.simps)

lemma bit_length_1: "bit_length 1 = 1"
  by (simp add: bit_length.simps[of 1] bit_length.simps[of 0])

lemma bit_length_Bit0: "bit_length (numeral (Num.Bit0 n)) = 1 + bit_length (numeral n)"
  by (subst bit_length.simps) simp

lemma bit_length_Bit1: "bit_length (numeral (Num.Bit1 n)) = 1 + bit_length (numeral n)"
  by (subst bit_length.simps) simp

lemma bit_length_One: "bit_length (numeral Num.One) = 1"
  using bit_length_1 by simp

lemmas bit_length_numeral =
  bit_length_0 bit_length_1 bit_length_Bit0 bit_length_Bit1 bit_length_One

lemmas arith_defs =
  py_truediv_def binary_exponent_def round_half_even_def py_int_def Let_def

lemma bit_length_nonneg: "0 \<le> bit_length n"
  by (induction n rule: bit_length.induct) (subst bit_length.simps, auto)

lemma bit_length_bounds:
  "0 < n \<Longrightarrow> 1 \<le> bit_length n \<and> 2 ^ nat (bit_length n - 1) \<le> n \<and> n < 2 ^ nat (bit_length n)"
proof (induction n rule: bit_length.induct)
  case (1 n)
  show ?case
  proof (cases "n = 1")
    case True
    then show ?thesis by (simp add: bit_length_1)
  next
    case False
    with "1.prems" have pos: "0 < n div 2" by simp
    define k where "k = bit_length (n div 2)"
    from "1.IH" "1.prems" pos
    have ih: "1 \<le> k" "2 ^ nat (k - 1) \<le> n div 2" "n div 2 < 2 ^ nat k"
      by (simp_all add: k_def)
    have bl: "bit_length n = 1 + k"
      using "1.prems" by (subst bit_length.simps) (simp add: k_def)
    have p1: "nat k = Suc (nat (k - 1))" using ih(1) by simp
    have p2: "nat (1 + k - 1) = nat k" "nat (1 + k) = Suc (nat k)" using ih(1) by simp_all
    define P :: int where "P = 2 ^ nat (k - 1)"
    have P: "(2::int) ^ nat k = 2 * P" unfolding P_def by (subst p1) simp
    have d: "2 * (n div 2) \<le> n" "n \<le> 2 * (n div 2) + 1" by linarith+
    have "2 * P \<le> n" using ih(2) d(1) unfolding P_def[symmetric] by linarith
    moreover have "n < 2 * (2 * P)" using ih(3) d(2) unfolding P by linarith
    ultimately show ?thesis
      unfolding bl p2 power_Suc P using ih(1) by simp
  qed
qed

lemma rhe_lower: "n div d \<le> round_half_even n d"
  by (simp add: round_half_even_def Let_def)

lemma rhe_upper: "round_half_even n d \<le> n div d + 1"
  by (simp add: round_half_even_def Let_def)

lemma rhe_down: "2 * (n mod d) < d \<Longrightarrow> round_half_even n d = n div d"
  by (simp add: round_half_even_def Let_def)

lemma rounded_then_truncated:
  fixes a c K :: int
  assumes a: "0 \<le> a" and c: "0 < c" and K: "0 < K" and cK: "c < 2 * K"
  shows "round_half_even (a * K) c div K = a div c"
proof -
  define n0 where "n0 = a div c"
  define r where "r = a mod c"
  define t where "t = (r * K) div c"
  define s where "s = (r * K) mod c"
  define m where "m = round_half_even (a * K) c"
  have r: "0 \<le> r" "r < c" using c by (simp_all add: r_def)
  have a_eq: "a = n0 * c + r" by (simp add: n0_def r_def)
  have aK: "a * K = (n0 * K) * c + r * K" by (subst a_eq) (simp add: algebra_simps)
  have rK: "r * K = t * c + s" by (simp add: t_def s_def)
  have s: "0 \<le> s" "s < c" using c by (simp_all add: s_def)
  have t0: "0 \<le> t" using r K c by (simp add: t_def pos_imp_zdiv_nonneg_iff)
  have "r * K < c * K" using r K by simp
  then have "t * c < c * K" using rK s by linarith
  then have "t * c < K * c" by (simp add: mult.commute)
  then have tK: "t < K" using c by simp
  have divK: "(a * K) div c = n0 * K + t"
    unfolding aK t_def using c by simp
  have modK: "(a * K) mod c = s"
    unfolding aK s_def by simp
  have lo: "n0 * K \<le> m"
    using rhe_lower[of "a * K" c] t0 unfolding m_def divK by linarith
  have hi: "m < n0 * K + K"
  proof (cases "t = K - 1")
    case False
    with tK have "t + 1 < K" by simp
    then show ?thesis
      using rhe_upper[of "a * K" c] unfolding m_def divK by linarith
  next
    case True
    have "r + 1 \<le> c" using r by simp
    then have "(r + 1) * (2 * K) \<le> c * (2 * K)" using K by (intro mult_right_mono) simp_all
    then have "2 * (r * K) + 2 * K \<le> 2 * (c * K)" by (simp add: algebra_simps)
    moreover have "s = r * K - (K - 1) * c" using rK True by simp
    then have "2 * s = 2 * (r * K) - 2 * (c * K) + 2 * c" by (simp add: algebra_simps)
    ultimately have "2 * s < c" using cK by linarith
    then have "m = n0 * K + t"
      using rhe_down[of "a * K" c] unfolding m_def modK divK by simp
    then show ?thesis using tK by simp
  qed
  have "m div K = n0"
  proof (rule int_div_pos_eq[of m K n0 "m - n0 * K"])
    show "m = K * n0 + (m - n0 * K)" by (simp add: algebra_simps)
    show "0 \<le> m - n0 * K" using lo by simp
    show "m - n0 * K < K" using hi by simp
  qed
  then show ?thesis by (simp add: m_def n0_def)
qed

lemma rounded_tiny:
  fixes a c K L :: int
  assumes a: "0 \<le> a" and c: "0 < c" and K: "0 < K" and L: "a * K < c * L" "L < K"
  shows "round_half_even (a * K) c div K = 0"
proof -
  have "(a * K) div c * c \<le> a * K"
    using div_mult_mod_eq[of "a * K" c] pos_mod_sign[of c "a * K"] c by linarith
  then have "(a * K) div c * c < L * c" using L(1) by (simp add: mult.commute)
  then have "(a * K) div c < L" using c by simp
  then have "round_half_even (a * K) c \<le> L"
    using rhe_upper[of "a * K" c] by linarith
  moreover have "0 \<le> a * K" using a K by simp
  then have "0 \<le> (a * K) div c" using c by (simp add: pos_imp_zdiv_nonneg_iff)
  then have "0 \<le> round_half_even (a * K) c"
    using rhe_lower[of "a * K" c] by linarith
  ultimately show ?thesis using L(2) by simp
qed

lemma binary_exponent_lower:
  assumes a: "0 < a" and b: "0 < b"
  shows "if 0 \<le> binary_exponent a b then b * 2 ^ nat (binary_exponent a b) \<le> a
         else b \<le> a * 2 ^ nat (- binary_exponent a b)"
proof -
  define ba where "ba = bit_length a"
  define bb where "bb = bit_length b"
  define e0 where "e0 = ba - bb"
  have A: "1 \<le> ba" "2 ^ nat (ba - 1) \<le> a"
    using bit_length_bounds[OF a] by (simp_all add: ba_def)
  have B: "1 \<le> bb" "b < 2 ^ nat bb"
    using bit_length_bounds[OF b] by (simp_all add: bb_def)
  define test where
    "test \<longleftrightarrow> (if 0 \<le> e0 then b * 2 ^ nat e0 \<le> a else b \<le> a * 2 ^ nat (- e0))"
  have be: "binary_exponent a b = (if test then e0 else e0 - 1)"
    unfolding binary_exponent_def Let_def test_def e0_def ba_def bb_def by (rule refl)
  show ?thesis
  proof (cases test)
    case True
    then have e: "binary_exponent a b = e0"
      by (simp add: be)
    from True show ?thesis unfolding e test_def .
  next
    case False
    then have e: "binary_exponent a b = e0 - 1"
      by (simp add: be)
    show ?thesis
    proof (cases "0 \<le> e0 - 1")
      case True
      have "nat bb + nat (e0 - 1) = nat (ba - 1)" using True A B by (simp add: e0_def)
      then have "(2::int) ^ nat bb * 2 ^ nat (e0 - 1) = 2 ^ nat (ba - 1)"
        by (simp add: power_add[symmetric])
      moreover have "b * 2 ^ nat (e0 - 1) \<le> 2 ^ nat bb * 2 ^ nat (e0 - 1)"
        using B(2) by (intro mult_right_mono) simp_all
      ultimately have "b * 2 ^ nat (e0 - 1) \<le> a" using A(2) by linarith
      with True show ?thesis by (simp add: e)
    next
      case False
      have "nat (ba - 1) + nat (- (e0 - 1)) = nat bb" using False A B by (simp add: e0_def)
      then have "(2::int) ^ nat (ba - 1) * 2 ^ nat (- (e0 - 1)) = 2 ^ nat bb"
        by (simp add: power_add[symmetric])
      moreover have "2 ^ nat (ba - 1) * 2 ^ nat (- (e0 - 1)) \<le> a * 2 ^ nat (- (e0 - 1))"
        using A(2) by (intro mult_right_mono) simp_all
      ultimately have "b \<le> a * 2 ^ nat (- (e0 - 1))" using B(2) by linarith
      with False show ?thesis by (simp add: e)
    qed
  qed
qed

lemma binary_exponent_upper:
  assumes a: "0 < a" and b: "0 < b" and small: "binary_exponent a b < - 1"
  shows "a * 2 ^ nat (- binary_exponent a b - 1) < b"
proof -
  define ba where "ba = bit_length a"
  define bb where "bb = bit_length b"
  define e0 where "e0 = ba - bb"
  have A: "1 \<le> ba" "a < 2 ^ nat ba"
    using bit_length_bounds[OF a] by (simp_all add: ba_def)
  have B: "1 \<le> bb" "2 ^ nat (bb - 1) \<le> b"
    using bit_length_bounds[OF b] by (simp_all add: bb_def)
  define test where
    "test \<longleftrightarrow> (if 0 \<le> e0 then b * 2 ^ nat e0 \<le> a else b \<le> a * 2 ^ nat (- e0))"
  have be: "binary_exponent a b = (if test then e0 else e0 - 1)"
    unfolding binary_exponent_def Let_def test_def e0_def ba_def bb_def by (rule refl)
  show ?thesis
  proof (cases test)
    case True
    then have e: "binary_exponent a b = e0"
      by (simp add: be)
    with small have e0: "e0 < - 1" by simp
    have "nat ba + nat (- e0 - 1) = nat (bb - 1)" using e0 A B by (simp add: e0_def)
    then have "(2::int) ^ nat ba * 2 ^ nat (- e0 - 1) = 2 ^ nat (bb - 1)"
      by (simp add: power_add[symmetric])
    moreover have "a * 2 ^ nat (- e0 - 1) < 2 ^ nat ba * 2 ^ nat (- e0 - 1)"
      using A(2) by (intro mult_strict_right_mono) simp_all
    ultimately have "a * 2 ^ nat (- e0 - 1) < b" using B(2) by linarith
    then show ?thesis by (simp add: e)
  next
    case False
    then have e: "binary_exponent a b = e0 - 1"
      by (simp add: be)
    with small have e0: "e0 < 0" by simp
    with False have "a * 2 ^ nat (- e0) < b" by (simp add: test_def)
    moreover have "- (e0 - 1) - 1 = - e0" by simp
    ultimately show ?thesis unfolding e by simp
  qed
qed


lemma truediv_then_int:
  assumes a0: "0 \<le> a" and a53: "a < 2 ^ 53" and c: "0 < c"
  shows "\<exists>f. py_truediv a c = Inr f \<and> py_int f = a div c"
proof (cases "a = 0")
  case True
  then show ?thesis using c by (simp add: py_truediv_def py_int_def)
next
  case False
  with a0 have a: "0 < a" by simp
  define e where "e = binary_exponent a c"
  define x where "x = max e (- 1022) - 52"
  define m where "m = (if 0 \<le> x then round_half_even a (c * 2 ^ nat x)
                       else round_half_even (a * 2 ^ nat (- x)) c)"
  have lower: "if 0 \<le> e then c * 2 ^ nat e \<le> a else c \<le> a * 2 ^ nat (- e)"
    using binary_exponent_lower[OF a c] by (simp add: e_def)
  have e52: "e \<le> 52"
  proof (rule ccontr)
    assume "\<not> e \<le> 52"
    then have e: "53 \<le> e" by simp
    then have "c * 2 ^ nat e \<le> a" using lower by simp
    moreover have "(2::int) ^ 53 \<le> 2 ^ nat e" using e by (intro power_increasing) simp_all
    moreover have "(1::int) * 2 ^ nat e \<le> c * 2 ^ nat e" using c by (intro mult_right_mono) simp_all
    ultimately show False using a53 by simp
  qed
  then have x0: "x \<le> 0" by (simp add: x_def)
  have m_div: "(if 0 \<le> x then m * 2 ^ nat x else m div 2 ^ nat (- x)) = a div c \<and> 0 \<le> m"
  proof (cases "- 1022 \<le> e")
    case True
    then have x: "x = e - 52" by (simp add: x_def)
    define K :: int where "K = 2 ^ nat (- x)"
    have K: "0 < K" by (simp add: K_def)
    have K2: "2 * K = 2 ^ nat (53 - e)"
    proof -
      have "nat (53 - e) = Suc (nat (- x))" using e52 x by simp
      then show ?thesis by (simp add: K_def)
    qed
    have cK: "c < 2 * K"
    proof (cases "0 \<le> e")
      case True
      then have "c * 2 ^ nat e \<le> a" using lower by simp
      moreover have "nat (53 - e) + nat e = 53" using True e52 by simp
      then have "(2::int) ^ nat (53 - e) * 2 ^ nat e = 2 ^ 53"
        by (simp add: power_add[symmetric])
      ultimately have "c * 2 ^ nat e < 2 ^ nat (53 - e) * 2 ^ nat e" using a53 by linarith
      then show ?thesis unfolding K2 by simp
    next
      case False
      then have "c \<le> a * 2 ^ nat (- e)" using lower by simp
      moreover have "a * 2 ^ nat (- e) < 2 ^ 53 * 2 ^ nat (- e)"
        using a53 by (intro mult_strict_right_mono) simp_all
      moreover have "53 + nat (- e) = nat (53 - e)" using False by simp
      then have "(2::int) ^ 53 * 2 ^ nat (- e) = 2 ^ nat (53 - e)"
        by (simp only: power_add[symmetric])
      ultimately show ?thesis unfolding K2 by linarith
    qed
    have key: "round_half_even (a * K) c div K = a div c"
      by (rule rounded_then_truncated[OF a0 c K cK])
    have nonneg: "0 \<le> round_half_even (a * K) c"
    proof -
      have "0 \<le> (a * K) div c" using a0 K c by (simp add: pos_imp_zdiv_nonneg_iff)
      then show ?thesis using rhe_lower[of "a * K" c] by linarith
    qed
    show ?thesis
    proof (cases "x = 0")
      case True
      then have "K = 1" by (simp add: K_def)
      with key nonneg True show ?thesis by (simp add: m_def)
    next
      case False
      with x0 have "x < 0" by simp
      with key nonneg show ?thesis by (simp add: m_def K_def)
    qed
  next
    case False
    then have x: "x = - 1074" by (simp add: x_def)
    from False have small: "e < - 1" by simp
    have up: "a * 2 ^ nat (- e - 1) < c"
      using binary_exponent_upper[OF a c] small by (simp add: e_def)
    have "(2::int) ^ 1022 \<le> 2 ^ nat (- e - 1)" using False by (intro power_increasing) simp_all
    then have "a * 2 ^ 1022 \<le> a * 2 ^ nat (- e - 1)" using a0 by (intro mult_left_mono) simp_all
    with up have lt: "a * 2 ^ 1022 < c" by linarith
    define K :: int where "K = 2 ^ 1074"
    define L :: int where "L = 2 ^ 52"
    have "K = 2 ^ 1022 * L" by (simp add: K_def L_def)
    then have "a * K = (a * 2 ^ 1022) * L" by simp
    also have "\<dots> < c * L" using lt by (intro mult_strict_right_mono) (simp_all add: L_def)
    finally have aK: "a * K < c * L" .
    have LK: "L < K" by (simp add: K_def L_def)
    have K: "0 < K" by (simp add: K_def)
    have key: "round_half_even (a * K) c div K = 0"
      by (rule rounded_tiny[OF a0 c K aK LK])
    have nonneg: "0 \<le> round_half_even (a * K) c"
    proof -
      have "0 \<le> (a * K) div c" using a0 K c by (simp add: pos_imp_zdiv_nonneg_iff)
      then show ?thesis using rhe_lower[of "a * K" c] by linarith
    qed
    have "a < c"
    proof -
      have "a * 1 \<le> a * 2 ^ 1022" using a0 by (intro mult_left_mono) simp_all
      with lt show ?thesis by simp
    qed
    then have "a div c = 0" using a0 by simp
    with key nonneg show ?thesis by (simp add: m_def x K_def)
  qed
  have no_overflow: "\<not> (0 \<le> x \<and> 2 ^ 1024 \<le> m * 2 ^ nat x)"
  proof
    assume h: "0 \<le> x \<and> (2::int) ^ 1024 \<le> m * 2 ^ nat x"
    with x0 have "x = 0" by simp
    with m_div have "m = a div c" by simp
    moreover have "a div c \<le> a" using zdiv_mono2[of a 1 c] a0 c by simp
    ultimately have "m < 2 ^ 53" using a53 by simp
    with h \<open>x = 0\<close> show False by simp
  qed
  have "py_truediv a c =
      (if 0 \<le> x \<and> 2 ^ 1024 \<le> m * 2 ^ nat x
       then Inl (PyExc ''OverflowError''
                   ''integer division result too large for a float'' None)
       else Inr (PyFloat m x))"
    unfolding py_truediv_def Let_def x_def m_def e_def using a c by simp
  with no_overflow have "py_truediv a c = Inr (PyFloat m x)"
    by (simp only: if_False)
  moreover have "py_int (PyFloat m x) = a div c"
    using m_div by (auto simp add: py_int_def Let_def split: if_splits)
  ultimately show ?thesis by blast
qed


subsection \<open>Target dimensions\<close>

text \<open>
  C1 (as amended). For an image of positive size \<open>W0 x H0\<close>: with both targets absent the
  grid is \<open>32\<close> wide and \<open>H0 * 32 div W0\<close> high; with only a positive height \<open>th\<close> given
  the width is \<open>W0 * th div H0\<close>; with only a positive width \<open>tw\<close> given the height is
  \<open>H0 * tw div W0\<close>; with both given they are used as they are. The quotients are those
  of truncating integer division whenever the product that is divided stays below
  \<open>2^53\<close>: the program divides in double precision and truncates afterwards.
\<close>

theorem resolve_dimensions_truncates:
  "0 < W0 \<Longrightarrow> 0 < H0 \<Longrightarrow>
     (H0 * 32 < 2 ^ 53 \<longrightarrow>
        resolve_dimensions (W0, H0) None None = Inr (32, H0 * 32 div W0)) \<and>
     (0 < th \<and> W0 * th < 2 ^ 53 \<longrightarrow>
        resolve_dimensions (W0, H0) None (Some th) = Inr (W0 * th div H0, th)) \<and>
     (0 < tw \<and> H0 * tw < 2 ^ 53 \<longrightarrow>
        resolve_dimensions (W0, H0) (Some tw) None = Inr (tw, H0 * tw div W0)) \<and>
     resolve_dimensions (W0, H0) (Some tw) (Some th) = Inr (tw, th)"
proof (intro conjI impI)
  assume W: "0 < W0" and H: "0 < H0"
  {
    assume "H0 * 32 < 2 ^ 53"
    with truediv_then_int[of "H0 * 32" W0] W H
    show "resolve_dimensions (W0, H0) None None = Inr (32, H0 * 32 div W0)"
      by (auto simp add: resolve_dimensions_def)
  next
    assume "0 < th \<and> W0 * th < 2 ^ 53"
    with truediv_then_int[of "W0 * th" H0] W H
    show "resolve_dimensions (W0, H0) None (Some th) = Inr (W0 * th div H0, th)"
      by (auto simp add: resolve_dimensions_def)
  next
    assume "0 < tw \<and> H0 * tw < 2 ^ 53"
    with truediv_then_int[of "H0 * tw" W0] W H
    show "resolve_dimensions (W0, H0) (Some tw) None = Inr (tw, H0 * tw div W0)"
      by (auto simp add: resolve_dimensions_def)
  next
    show "resolve_dimensions (W0, H0) (Some tw) (Some th) = Inr (tw, th)"
      by (simp add: resolve_dimensions_def)
  }
qed

theorem resolve_dimensions_truncates_witness:
  "(0::int) < 100 \<and> (0::int) < 50 \<and>
   resolve_dimensions (100, 50) None None = Inr (32, 16) \<and>
   resolve_dimensions (100, 50) None (Some 20) = Inr (40, 20) \<and>
   resolve_dimensions (100, 50) (Some 20) None = Inr (20, 10) \<and>
   resolve_dimensions (100, 50) (Some 20) (Some 20) = Inr (20, 20)"
  using resolve_dimensions_truncates[of 100 50 20 20] by simp

text \<open>
  C1 as stated fails once the product exceeds \<open>2^53\<close>. For a \<open>3 x 1\<close> image and target
  width \<open>3 * 2^52 + 2\<close> the exact quotient is \<open>2^52 + 2/3\<close>; the nearest double is
  \<open>2^52 + 1\<close>, which is what \<open>int\<close> returns, while truncating integer division gives
  \<open>2^52\<close>.
\<close>

theorem resolve_dimensions_not_truncating_counterexample:
  "resolve_dimensions (3, 1) (Some 13510798882111490) None
     = Inr (13510798882111490, 4503599627370497) \<and>
   (1 * 13510798882111490) div (3::int) = 4503599627370496"
  by (simp add: resolve_dimensions_def arith_defs bit_length_numeral)

subsection \<open>The output path\<close>

lemma rfind_less: "rfind c p < int (length p)"
  by (induction p) (auto simp add: Let_def)

lemma rfind_ge: "- 1 \<le> rfind c p"
  by (induction p) (auto simp add: Let_def)

lemma rfind_absent: "rfind c p < 0 \<longleftrightarrow> c \<notin> set p"
  by (induction p) (auto simp add: Let_def)

lemma rfind_last:
  "c \<in> set p \<Longrightarrow>
   0 \<le> rfind c p \<and> p ! nat (rfind c p) = c \<and> c \<notin> set (drop (Suc (nat (rfind c p))) p)"
proof (induction p)
  case Nil
  then show ?case by simp
next
  case (Cons x xs)
  show ?case
  proof (cases "c \<in> set xs")
    case True
    with Cons.IH have ih: "0 \<le> rfind c xs" "xs ! nat (rfind c xs) = c"
      "c \<notin> set (drop (Suc (nat (rfind c xs))) xs)" by simp_all
    then have "nat (rfind c xs + 1) = Suc (nat (rfind c xs))" by simp
    with ih show ?thesis by (simp add: Let_def)
  next
    case False
    then have "rfind c xs < 0" by (simp add: rfind_absent)
    with False Cons.prems show ?thesis by (simp add: Let_def)
  qed
qed

lemma skip_leading_dots_eq:
  "0 \<le> i \<Longrightarrow> dot \<le> int (length p) \<Longrightarrow>
   skip_leading_dots p dot i =
     (if list_ex (\<lambda>c. c \<noteq> CHR ''.'') (drop (nat i) (take (nat dot) p))
      then (take (nat dot) p, drop (nat dot) p) else (p, []))"
proof (induction p dot i rule: skip_leading_dots.induct)
  case (1 p dotIndex filenameIndex)
  show ?case
  proof (cases "filenameIndex < dotIndex")
    case False
    then have "drop (nat filenameIndex) (take (nat dotIndex) p) = []" by simp
    with False show ?thesis by (subst skip_leading_dots.simps) simp
  next
    case True
    with "1.prems" have lt: "nat filenameIndex < length (take (nat dotIndex) p)" by simp
    have lt': "nat filenameIndex < length p" using True "1.prems" by simp
    have d: "drop (nat filenameIndex) (take (nat dotIndex) p)
          = p ! nat filenameIndex # drop (nat (filenameIndex + 1)) (take (nat dotIndex) p)"
      using Cons_nth_drop_Suc[OF lt, symmetric] lt "1.prems"(1)
      by (simp add: nat_add_distrib)
    have t: "take 1 (drop (nat filenameIndex) p) = [p ! nat filenameIndex]"
      using lt' by (simp add: take_Suc_conv_app_nth)
    show ?thesis
    proof (cases "p ! nat filenameIndex = CHR ''.''")
      case False
      with True t d show ?thesis by (subst skip_leading_dots.simps) simp
    next
      case dotc: True
      have "skip_leading_dots p dotIndex filenameIndex
              = skip_leading_dots p dotIndex (filenameIndex + 1)"
        using True t dotc by (subst skip_leading_dots.simps) simp
      also have "\<dots> = (if list_ex (\<lambda>c. c \<noteq> CHR ''.'')
                              (drop (nat (filenameIndex + 1)) (take (nat dotIndex) p))
                        then (take (nat dotIndex) p, drop (nat dotIndex) p) else (p, []))"
        using "1.IH"[OF True] t dotc "1.prems" by simp
      finally show ?thesis using d dotc by simp
    qed
  qed
qed

lemma splitext_eq:
  "splitext p =
     (let sepIndex = rfind CHR ''/'' p; dotIndex = rfind CHR ''.'' p
      in if sepIndex < dotIndex \<and>
            list_ex (\<lambda>c. c \<noteq> CHR ''.'') (drop (nat (sepIndex + 1)) (take (nat dotIndex) p))
         then (take (nat dotIndex) p, drop (nat dotIndex) p) else (p, []))"
  using rfind_less[of "CHR ''.''" p] rfind_ge[of "CHR ''/''" p]
  by (simp add: splitext_def Let_def skip_leading_dots_eq)

text \<open>
  C4 (as amended). With no explicit output path the result is the input path with
  \<open>_pixelated\<close> inserted before its extension. The extension starts at the last \<open>.\<close> of
  the path when that dot lies after the last \<open>/\<close> and some character other than \<open>.\<close>
  stands between them; in every other case the extension is empty and \<open>_pixelated\<close> is
  appended to the whole path.
\<close>

theorem default_output_path_eq:
  "default_output_path p =
     (let sepIndex = rfind CHR ''/'' p; dotIndex = rfind CHR ''.'' p
      in if sepIndex < dotIndex \<and>
            list_ex (\<lambda>c. c \<noteq> CHR ''.'') (drop (nat (sepIndex + 1)) (take (nat dotIndex) p))
         then take (nat dotIndex) p @ ''_pixelated'' @ drop (nat dotIndex) p
         else p @ ''_pixelated'')"
  by (simp add: default_output_path_def splitext_eq Let_def)

text \<open>
  \<open>photo.jpg\<close> gives \<open>photo_pixelated.jpg\<close> and \<open>photo\<close> gives \<open>photo_pixelated\<close>.
\<close>

theorem default_output_path_eq_witness:
  "default_output_path ''photo.jpg'' = ''photo_pixelated.jpg'' \<and>
   default_output_path ''photo'' = ''photo_pixelated'' \<and>
   default_output_path ''shots/photo.v2.jpg'' = ''shots/photo.v2_pixelated.jpg''"
  using default_output_path_eq[of "''photo.jpg''"] default_output_path_eq[of "''photo''"]
    default_output_path_eq[of "''shots/photo.v2.jpg''"]
  by (simp add: Let_def)

text \<open>
  C4 as stated fails for a final segment that begins with its last dot: the leading dot
  of \<open>.bashrc\<close> does not start an extension, while the specification's split takes the
  whole name as the extension.
\<close>

theorem default_output_path_leading_dot_counterexample:
  "default_output_path ''.bashrc'' = ''.bashrc_pixelated'' \<and>
   spec_default_output_path ''.bashrc'' = ''_pixelated.bashrc''"
  by (simp add: default_output_path_def spec_default_output_path_def spec_splitext_def
      splitext_eq Let_def)

subsection \<open>The steps of \<open>pixelate_image\<close>\<close>

lemma pixelate_image_open_failed:
  "image_open lib world p = Inl e \<Longrightarrow>
   pixelate_image lib world p out w h k = (Inl (load_error p e), world)"
  by (simp add: pixelate_image_def)

lemma pixelate_image_rendered:
  "image_open lib world p = Inr img \<Longrightarrow> render lib img w h k = Inr r \<Longrightarrow>
   pixelate_image lib world p out w h k =
     (case image_save lib world (pixelated_img r) (resolve_output_path p out) of
        (Some e, world') \<Rightarrow> (Inl e, world')
      | (None, world') \<Rightarrow> (Inr (resolve_output_path p out), world'))"
  by (simp add: pixelate_image_def Let_def)

lemma pixelate_image_success:
  assumes "pixelate_image lib world p out w h k = (Inr path, world')"
  shows "\<exists>img r. image_open lib world p = Inr img \<and> render lib img w h k = Inr r \<and>
           image_save lib world (pixelated_img r) (resolve_output_path p out) = (None, world') \<and>
           path = resolve_output_path p out"
  using assms
  by (auto simp add: pixelate_image_def Let_def split: sum.splits prod.splits option.splits)

lemma scaled_size_positive: "1 \<le> (t::int) \<Longrightarrow> 1 \<le> k \<Longrightarrow> 1 \<le> t * k"
  by (metis mult_mono mult_1 zero_le_one order_trans)

lemma nearest_resize_load_error: "im_load_error (nearest_resize img (w, h)) = None"
  by (simp add: nearest_resize_def split: prod.splits)

lemma render_positive:
  assumes "resolve_dimensions (im_size img) w h = Inr (tw, th)"
    and "1 \<le> tw" "1 \<le> th" "1 \<le> k"
    and "im_load_error img = None"
  shows "render lib img w h k =
           Inr \<lparr>grid_size = (tw, th), small_img = nearest_resize img (tw, th),
                pixelated_img = nearest_resize (nearest_resize img (tw, th)) (tw * k, th * k)\<rparr>"
  using assms scaled_size_positive[of tw k] scaled_size_positive[of th k]
  by (simp add: render_def image_resize_def nearest_resize_load_error Let_def)

lemma render_returned:
  assumes "render lib img w h k = Inr r"
    and "resolve_dimensions (im_size img) w h = Inr (tw, th)"
    and "1 \<le> tw" "1 \<le> th" "1 \<le> k"
  shows "im_load_error img = None \<and>
         r = \<lparr>grid_size = (tw, th), small_img = nearest_resize img (tw, th),
              pixelated_img = nearest_resize (nearest_resize img (tw, th)) (tw * k, th * k)\<rparr>"
proof (cases "im_load_error img")
  case None
  with render_positive[OF assms(2-5) None, of lib] assms(1) show ?thesis by simp
next
  case (Some e)
  with assms(1,2) show ?thesis by (simp add: render_def image_resize_def)
qed

lemma render_load_error:
  "im_load_error img = Some e \<Longrightarrow> resolve_dimensions (im_size img) w h = Inr g \<Longrightarrow>
   render lib img w h k = Inl e"
  by (cases g) (simp add: render_def image_resize_def)

lemma render_undecodable: "im_load_error img = Some e \<Longrightarrow> \<exists>e'. render lib img w h k = Inl e'"
  by (auto simp add: render_def image_resize_def split: sum.splits)

lemma image_resize_ignores_save:
  "image_resize (lib\<lparr>image_save := save\<rparr>) img new_size = image_resize lib img new_size"
  by (auto simp add: image_resize_def split: option.splits)

lemma render_ignores_save: "render (lib\<lparr>image_save := save\<rparr>) img w h k = render lib img w h k"
  by (auto simp add: render_def image_resize_ignores_save Let_def split: sum.splits prod.splits)

lemma pixelate_image_render_failed:
  "image_open lib world p = Inr img \<Longrightarrow> render lib img w h k = Inl e \<Longrightarrow>
   pixelate_image lib world p out w h k = (Inl e, world)"
  by (simp add: pixelate_image_def)

lemma nearest_resize_size: "im_size (nearest_resize img (w, h)) = (w, h)"
  by (simp add: nearest_resize_def split: prod.splits)



subsection \<open>Runs on the example library\<close>

lemma example_open_photo:
  "image_open example_library example_files ''photo.png'' = Inr red_image"
  by (simp add: example_library_def example_open_def example_files_def)

lemma example_open_missing:
  "image_open example_library example_files ''missing.png''
     = Inl (PyExc ''FileNotFoundError''
              (''[Errno 2] No such file or directory: '' @ [CHR 0x27] @ ''missing.png'' @ [CHR 0x27])
              None)"
  by (simp add: example_library_def example_open_def example_files_def)

lemma example_open_strip:
  "image_open example_library example_files ''strip.png'' = Inr strip_image"
  by (simp add: example_library_def example_open_def example_files_def)

lemma example_open_truncated:
  "image_open example_library example_files ''truncated.png'' = Inr truncated_image"
  by (simp add: example_library_def example_open_def example_files_def)

lemma example_grid_strip: "resolve_dimensions (im_size strip_image) None None = Inr (32, 0)"
  by (simp add: strip_image_def resolve_dimensions_def arith_defs bit_length_numeral)

lemma example_grid_truncated:
  "resolve_dimensions (im_size truncated_image) None None = Inr (32, 16)"
  by (simp add: truncated_image_def resolve_dimensions_def arith_defs bit_length_numeral)

lemma example_decodable:
  "im_load_error red_image = None" "im_load_error strip_image = None"
  by (simp_all add: red_image_def strip_image_def)

lemma example_undecodable: "im_load_error truncated_image = Some truncated_error"
  by (simp add: truncated_image_def)

lemma example_render_strip:
  "render example_library strip_image None None 1
     = Inl (PyExc ''ValueError'' ''height and width must be > 0'' None)"
  by (simp add: render_def image_resize_def example_grid_strip example_library_def
      example_decodable)

lemma example_grid: "resolve_dimensions (im_size red_image) (Some 4) None = Inr (4, 2)"
  by (simp add: red_image_def resolve_dimensions_def arith_defs bit_length_numeral)

lemma example_grid_default: "resolve_dimensions (im_size red_image) None None = Inr (32, 16)"
  by (simp add: red_image_def resolve_dimensions_def arith_defs bit_length_numeral)

lemma example_image_save: "image_save example_library = example_save"
  by (simp add: example_library_def)

lemma example_render:
  "1 \<le> k \<Longrightarrow>
   render example_library red_image (Some 4) None k =
     Inr \<lparr>grid_size = (4, 2), small_img = nearest_resize red_image (4, 2),
          pixelated_img = nearest_resize (nearest_resize red_image (4, 2)) (4 * k, 2 * k)\<rparr>"
  by (simp add: render_positive[OF example_grid] example_decodable)

lemma example_run_default:
  "fst (pixelate_image example_library example_files ''photo.png'' None None None 1)
     = Inr ''photo_pixelated.png''"
proof -
  have r: "render example_library red_image None None 1 =
     Inr \<lparr>grid_size = (32, 16), small_img = nearest_resize red_image (32, 16),
          pixelated_img = nearest_resize (nearest_resize red_image (32, 16)) (32 * 1, 16 * 1)\<rparr>"
    by (rule render_positive[OF example_grid_default]) (simp_all add: example_decodable)
  show ?thesis
    unfolding pixelate_image_rendered[OF example_open_photo r]
    by (simp add: resolve_output_path_def default_output_path_def splitext_eq Let_def
        example_image_save example_save_def)
qed

lemma example_run_scaled:
  "fst (pixelate_image example_library example_files ''photo.png'' None (Some 4) None 2)
     = Inr ''photo_pixelated.png''"
proof -
  have r: "render example_library red_image (Some 4) None 2 =
     Inr \<lparr>grid_size = (4, 2), small_img = nearest_resize red_image (4, 2),
          pixelated_img = nearest_resize (nearest_resize red_image (4, 2)) (4 * 2, 2 * 2)\<rparr>"
    by (rule example_render) simp
  show ?thesis
    unfolding pixelate_image_rendered[OF example_open_photo r]
    by (simp add: resolve_output_path_def default_output_path_def splitext_eq Let_def
        example_image_save example_save_def)
qed

lemma example_save_unknown:
  "image_save example_library example_files img ''out.xyz''
     = (Some (PyExc ''ValueError'' ''unknown file extension: .xyz'' None), example_files)"
  by (simp add: example_image_save example_save_def splitext_eq Let_def)

subsection \<open>Output image\<close>

text \<open>
  C2 (as amended). Let the image open, let its grid resolve to \<open>(tw, th)\<close> with at least
  one cell in each direction, let the scale \<open>k\<close> be at least one, and let both resizes
  succeed. Then the image handed to \<open>save\<close> has size \<open>(tw * k, th * k)\<close>, which is
  \<open>(tw, th)\<close> for \<open>k = 1\<close>, and the call ends as that \<open>save\<close> ends.
\<close>

theorem output_dimensions:
  "image_open lib world p = Inr img \<Longrightarrow>
   resolve_dimensions (im_size img) w h = Inr (tw, th) \<Longrightarrow>
   1 \<le> tw \<Longrightarrow> 1 \<le> th \<Longrightarrow> 1 \<le> k \<Longrightarrow>
   render lib img w h k = Inr r \<Longrightarrow>
   grid_size r = (tw, th) \<and>
   im_size (pixelated_img r) = (tw * k, th * k) \<and>
   (k = 1 \<longrightarrow> im_size (pixelated_img r) = (tw, th)) \<and>
   pixelate_image lib world p out w h k =
     (case image_save lib world (pixelated_img r) (resolve_output_path p out) of
        (Some e, world') \<Rightarrow> (Inl e, world')
      | (None, world') \<Rightarrow> (Inr (resolve_output_path p out), world'))"
proof -
  assume opened: "image_open lib world p = Inr img"
    and grid: "resolve_dimensions (im_size img) w h = Inr (tw, th)"
    and pos: "1 \<le> tw" "1 \<le> th" "1 \<le> k"
    and r: "render lib img w h k = Inr r"
  from render_returned[OF r grid pos]
  have "r = \<lparr>grid_size = (tw, th), small_img = nearest_resize img (tw, th),
              pixelated_img = nearest_resize (nearest_resize img (tw, th)) (tw * k, th * k)\<rparr>"
    by simp
  then show ?thesis
    using pixelate_image_rendered[OF opened r, of out] by (simp add: nearest_resize_size)
qed

text \<open>
  A solid red \<open>200 x 100\<close> image with width 4 resolves to a \<open>4 x 2\<close> grid; scale 2 gives
  an \<open>8 x 4\<close> output and scale 1 a \<open>4 x 2\<close> output.
\<close>

theorem output_dimensions_witness:
  "grid_size (projr (render example_library red_image (Some 4) None 2)) = (4, 2) \<and>
   im_size (pixelated_img (projr (render example_library red_image (Some 4) None 2))) = (8, 4) \<and>
   grid_size (projr (render example_library red_image (Some 4) None 1)) = (4, 2) \<and>
   im_size (pixelated_img (projr (render example_library red_image (Some 4) None 1))) = (4, 2)"
proof -
  let ?r = "\<lambda>k. render example_library red_image (Some 4) None k"
  have r: "?r 2 = Inr (projr (?r 2))" "?r 1 = Inr (projr (?r 1))"
    by (simp_all add: example_render)
  from output_dimensions[OF example_open_photo example_grid _ _ _ r(1), of None]
    output_dimensions[OF example_open_photo example_grid _ _ _ r(2), of None]
  show ?thesis by simp
qed

text \<open>
  C2 as stated fails on a valid image whose grid loses a side: for the strip of
  \<open>100 x 1\<close> pixels the default grid is \<open>32 x 0\<close>, the library refuses the resize, and
  the call ends with that exception and without an output image.
\<close>

theorem output_dimensions_degenerate_grid_counterexample:
  "resolve_dimensions (100, 1) None None = Inr (32, 0) \<and>
   pixelate_image example_library example_files ''strip.png'' None None None 1
     = (Inl (PyExc ''ValueError'' ''height and width must be > 0'' None), example_files)"
  using example_grid_strip
    pixelate_image_render_failed[OF example_open_strip example_render_strip, of None]
  by (simp add: strip_image_def)



subsection \<open>Errors\<close>

text \<open>
  C5 (as amended). When \<open>Image.open\<close> raises \<open>e\<close>, the call raises the \<open>ValueError\<close> of
  line 23: its message is \<open>Could not open image\<close>, the path, a colon and \<open>str(e)\<close>, and
  its context is \<open>e\<close> itself. When the file opens and the grid resolves but the pixel
  data then fails to decode with \<open>e\<close>, the call raises that \<open>e\<close> as it is.
\<close>

theorem load_failure_is_wrapped:
  "(image_open lib world p = Inl e \<longrightarrow>
      fst (pixelate_image lib world p out w h k) = Inl (load_error p e) \<and>
      exc_type (load_error p e) = ''ValueError'' \<and>
      exc_str (load_error p e) = ''Could not open image '' @ p @ '': '' @ exc_str e \<and>
      exc_context (load_error p e) = Some e) \<and>
   (image_open lib world p = Inr img \<and> im_load_error img = Some e \<and>
    resolve_dimensions (im_size img) w h = Inr g \<longrightarrow>
      fst (pixelate_image lib world p out w h k) = Inl e)"
  by (auto simp add: pixelate_image_open_failed load_error_def
      pixelate_image_render_failed render_load_error)

text \<open>
  Opening a missing file and a truncated file in the example.
\<close>

theorem load_failure_is_wrapped_witness:
  "fst (pixelate_image example_library example_files ''missing.png'' None None None 1)
     = Inl (PyExc ''ValueError''
              (''Could not open image missing.png: [Errno 2] No such file or directory: ''
                 @ [CHR 0x27] @ ''missing.png'' @ [CHR 0x27])
              (Some (PyExc ''FileNotFoundError''
                       (''[Errno 2] No such file or directory: ''
                          @ [CHR 0x27] @ ''missing.png'' @ [CHR 0x27])
                       None))) \<and>
   fst (pixelate_image example_library example_files ''truncated.png'' None None None 1)
     = Inl truncated_error"
  using load_failure_is_wrapped[of example_library example_files "''missing.png''"
      "PyExc ''FileNotFoundError''
         (''[Errno 2] No such file or directory: '' @ [CHR 0x27] @ ''missing.png'' @ [CHR 0x27])
         None" None None None 1]
    load_failure_is_wrapped[of example_library example_files "''truncated.png''"
      truncated_error None None None 1 truncated_image "(32, 16)"]
    example_open_missing example_open_truncated example_grid_truncated
    example_undecodable
  by (simp add: load_error_def)

text \<open>
  C5 as stated fails for a file that opens and cannot be decoded: the file with the
  intact header and the cut body opens, the decoding fails inside the resize of line 41,
  outside the \<open>try\<close>, and what surfaces is the library's \<open>OSError\<close>, not the
  \<open>ValueError\<close> of line 23.
\<close>

theorem undecodable_file_not_wrapped_counterexample:
  "fst (pixelate_image example_library example_files ''truncated.png'' None None None 1)
     = Inl (PyExc ''OSError'' ''image file is truncated'' None) \<and>
   exc_type (PyExc ''OSError'' ''image file is truncated'' None) \<noteq> ''ValueError''"
proof -
  have r: "render example_library truncated_image None None 1 = Inl truncated_error"
    by (rule render_load_error[OF example_undecodable example_grid_truncated])
  from pixelate_image_render_failed[OF example_open_truncated r, of None]
  show ?thesis by (simp add: truncated_error_def)
qed

text \<open>
  C6 (as amended). When \<open>save\<close> raises \<open>e\<close>, the call raises exactly \<open>e\<close>: the
  library's exception leaves the function unchanged, no exception of the program's own is
  put around it, no path is returned, and the file system is as the failed \<open>save\<close> left
  it.
\<close>

theorem save_failure_propagates:
  "image_open lib world p = Inr img \<Longrightarrow> render lib img w h k = Inr r \<Longrightarrow>
   image_save lib world (pixelated_img r) (resolve_output_path p out) = (Some e, world') \<Longrightarrow>
   pixelate_image lib world p out w h k = (Inl e, world')"
  by (simp add: pixelate_image_rendered)

text \<open>
  Saving to a path with an unknown extension in the example.
\<close>

theorem save_failure_propagates_witness:
  "pixelate_image example_library example_files ''photo.png'' (Some ''out.xyz'') (Some 4) None 2
     = (Inl (PyExc ''ValueError'' ''unknown file extension: .xyz'' None), example_files)"
proof -
  let ?r = "\<lparr>grid_size = (4, 2), small_img = nearest_resize red_image (4, 2),
              pixelated_img = nearest_resize (nearest_resize red_image (4, 2)) (4 * 2, 2 * 2)\<rparr>"
  have r: "render example_library red_image (Some 4) None 2 = Inr ?r"
    by (rule example_render) simp
  have s: "image_save example_library example_files (pixelated_img ?r)
             (resolve_output_path ''photo.png'' (Some ''out.xyz''))
           = (Some (PyExc ''ValueError'' ''unknown file extension: .xyz'' None), example_files)"
    by (simp add: example_save_unknown resolve_output_path_def)
  from save_failure_propagates[OF example_open_photo r s] show ?thesis .
qed

text \<open>
  C6 as stated fails: the exception that surfaces is the library's own
  \<open>ValueError\<close>, the class the program uses for a failed load, and it has no context: it
  is not an error of a kind of its own that carries the cause.
\<close>

theorem save_failure_not_wrapped_counterexample:
  "fst (pixelate_image example_library example_files ''photo.png'' (Some ''out.xyz'') (Some 4) None 2)
     = Inl (PyExc ''ValueError'' ''unknown file extension: .xyz'' None) \<and>
   exc_context (PyExc ''ValueError'' ''unknown file extension: .xyz'' None) = None"
proof -
  have r: "render example_library red_image (Some 4) None 2 =
     Inr \<lparr>grid_size = (4, 2), small_img = nearest_resize red_image (4, 2),
          pixelated_img = nearest_resize (nearest_resize red_image (4, 2)) (4 * 2, 2 * 2)\<rparr>"
    by (rule example_render) simp
  show ?thesis
    unfolding pixelate_image_rendered[OF example_open_photo r]
    by (simp add: example_save_unknown resolve_output_path_def)
qed

text \<open>
  C7. When the input cannot be opened (\<open>Image.open\<close> raises), or opens and cannot be
  decoded, or the resampling fails for any other reason, the call raises and the file
  system after it is the one before it, whatever \<open>save\<close> would have done: nothing is
  written.
\<close>

theorem load_failure_writes_nothing:
  "image_open lib world p = Inl e \<or>
   (image_open lib world p = Inr img \<and>
    (im_load_error img = Some e \<or> render lib img w h k = Inl e)) \<Longrightarrow>
   \<exists>e'. pixelate_image (lib\<lparr>image_save := save\<rparr>) world p out w h k = (Inl e', world) \<and>
        (image_open lib world p = Inl e \<longrightarrow> e' = load_error p e)"
proof (elim disjE conjE)
  assume "image_open lib world p = Inl e"
  then show ?thesis by (simp add: pixelate_image_def)
next
  assume opened: "image_open lib world p = Inr img" and "im_load_error img = Some e"
  then obtain e' where "render lib img w h k = Inl e'"
    using render_undecodable by blast
  with opened show ?thesis by (simp add: pixelate_image_def render_ignores_save)
next
  assume "image_open lib world p = Inr img" and "render lib img w h k = Inl e"
  then show ?thesis by (simp add: pixelate_image_def render_ignores_save)
qed

text \<open>
  A missing file, a truncated file and the strip with the empty grid in the example: the
  files are as they were.
\<close>

theorem load_failure_writes_nothing_witness:
  "snd (pixelate_image (example_library\<lparr>image_save := example_save\<rparr>) example_files
          ''missing.png'' None None None 1) = example_files \<and>
   snd (pixelate_image (example_library\<lparr>image_save := example_save\<rparr>) example_files
          ''truncated.png'' None None None 1) = example_files \<and>
   snd (pixelate_image (example_library\<lparr>image_save := example_save\<rparr>) example_files
          ''strip.png'' None None None 1) = example_files"
proof -
  let ?missing = "PyExc ''FileNotFoundError''
     (''[Errno 2] No such file or directory: '' @ [CHR 0x27] @ ''missing.png'' @ [CHR 0x27]) None"
  note t = example_undecodable
  from load_failure_writes_nothing[where lib = example_library and world = example_files
        and p = "''missing.png''" and e = ?missing and save = example_save
        and out = None and w = None and h = None and k = 1]
    load_failure_writes_nothing[where lib = example_library and world = example_files
        and p = "''truncated.png''" and e = truncated_error and img = truncated_image
        and save = example_save and out = None and w = None and h = None and k = 1]
    load_failure_writes_nothing[where lib = example_library and world = example_files
        and p = "''strip.png''" and img = strip_image
        and e = "PyExc ''ValueError'' ''height and width must be > 0'' None"
        and save = example_save and out = None and w = None and h = None and k = 1]
    example_open_missing example_open_truncated example_open_strip example_render_strip t
  show ?thesis by auto
qed

subsection \<open>Independence of the output path and of the grid\<close>

text \<open>
  C9. Two successful calls on the same input path without an explicit output path
  return the same path, the one derived from the input path alone, whatever the
  libraries, the file systems and the other arguments are.
\<close>

theorem output_path_pure:
  "pixelate_image lib1 world1 p None w1 h1 k1 = (Inr path1, world1') \<Longrightarrow>
   pixelate_image lib2 world2 p None w2 h2 k2 = (Inr path2, world2') \<Longrightarrow>
   path1 = default_output_path p \<and> path2 = path1"
  by (auto dest!: pixelate_image_success simp add: resolve_output_path_def)

text \<open>
  Two runs of the example with different sizes and scales.
\<close>

theorem output_path_pure_witness:
  "fst (pixelate_image example_library example_files ''photo.png'' None None None 1)
     = Inr (default_output_path ''photo.png'') \<and>
   fst (pixelate_image example_library example_files ''photo.png'' None (Some 4) None 2)
     = Inr (default_output_path ''photo.png'')"
proof -
  let ?a = "pixelate_image example_library example_files ''photo.png'' None None None 1"
  let ?b = "pixelate_image example_library example_files ''photo.png'' None (Some 4) None 2"
  have a: "?a = (Inr ''photo_pixelated.png'', snd ?a)"
    using example_run_default by (simp add: prod_eq_iff)
  have b: "?b = (Inr ''photo_pixelated.png'', snd ?b)"
    using example_run_scaled by (simp add: prod_eq_iff)
  from output_path_pure[OF a b] example_run_default example_run_scaled
  show ?thesis by simp
qed

text \<open>
  C10. Two runs that differ in the scale only resolve the same grid, the one
  \<open>resolve_dimensions\<close> gives, and downsample to the same image; and when both return,
  they return the same output path.
\<close>

theorem scale_noninterference:
  "(render lib img w h k1 = Inr r1 \<and> render lib img w h k2 = Inr r2 \<longrightarrow>
      resolve_dimensions (im_size img) w h = Inr (grid_size r1) \<and>
      grid_size r2 = grid_size r1 \<and> small_img r2 = small_img r1) \<and>
   (pixelate_image lib world p out w h k1 = (Inr path1, world1) \<and>
    pixelate_image lib world p out w h k2 = (Inr path2, world2) \<longrightarrow>
      path1 = resolve_output_path p out \<and> path2 = path1)"
  by (auto simp add: render_def Let_def split: sum.splits prod.splits
      dest!: pixelate_image_success)

text \<open>
  The example at scale 1 and at scale 3: the same \<open>4 x 2\<close> grid, outputs of
  \<open>4 x 2\<close> and \<open>12 x 6\<close>.
\<close>

theorem scale_noninterference_witness:
  "grid_size (projr (render example_library red_image (Some 4) None 1)) = (4, 2) \<and>
   grid_size (projr (render example_library red_image (Some 4) None 3)) = (4, 2) \<and>
   im_size (pixelated_img (projr (render example_library red_image (Some 4) None 1))) = (4, 2) \<and>
   im_size (pixelated_img (projr (render example_library red_image (Some 4) None 3))) = (12, 6)"
proof -
  let ?r = "\<lambda>k. render example_library red_image (Some 4) None k"
  have r: "?r 1 = Inr (projr (?r 1))" "?r 3 = Inr (projr (?r 3))"
    by (simp_all add: example_render)
  have "render example_library red_image (Some 4) None 1 = Inr (projr (?r 1)) \<and>
        render example_library red_image (Some 4) None 3 = Inr (projr (?r 3))"
    using r by simp
  with scale_noninterference[of example_library red_image "Some 4" None 1 "projr (?r 1)" 3
      "projr (?r 3)"] example_grid
  have "grid_size (projr (?r 1)) = (4, 2)" "grid_size (projr (?r 3)) = grid_size (projr (?r 1))"
    by simp_all
  then show ?thesis
    by (simp add: example_render nearest_resize_size)
qed

subsection \<open>The command line\<close>




end
